theory Spec2Isabelle
  imports Main "HOL-Library.Sublist"
begin

section \<open>The elFinder connector (\<^verbatim>\<open>elfinder/connector.py\<close>)\<close>

text \<open>
  A shallow embedding of class \<^verbatim>\<open>ElFinderConnector\<close>. Python strings are \<open>string\<close>,
  Python dictionaries are association lists in insertion order (the iteration order of
  a \<^verbatim>\<open>dict\<close>), exceptions are values of type \<open>exn\<close> returned on the left of a sum.
\<close>

subsection \<open>Python strings\<close>

text \<open>
  \<^verbatim>\<open>s.split(sep)\<close> for a one-character separator: the string is cut at every occurrence
  of the separator, so the result has one more element than there are separators.
\<close>

fun split :: "char \<Rightarrow> string \<Rightarrow> string list" where
  "split sep [] = [[]]"
| "split sep (c # cs) =
     (if c = sep then [] # split sep cs
      else (case split sep cs of
              [] \<Rightarrow> [[c]]
            | p # ps \<Rightarrow> (c # p) # ps))"



text \<open>\<^verbatim>\<open>os.path.join(a, b)\<close> of \<^verbatim>\<open>posixpath\<close>, for two components.\<close>

definition path_join :: "string \<Rightarrow> string \<Rightarrow> string" where
  "path_join a b =
     (if b \<noteq> [] \<and> hd b = CHR ''/'' then b
      else if a = [] \<or> last a = CHR ''/'' then a @ b
      else a @ ''/'' @ b)"

text \<open>
  \<^verbatim>\<open>repr\<close> of a string whose characters are code points below 256 (Python 3): single
  quotes unless the string has a single quote and no double quote; backslash, the
  chosen quote, tab, newline and carriage return are escaped, every other
  non-printable code point is written \<^verbatim>\<open>\xNN\<close>.
\<close>

definition hex_digit :: "nat \<Rightarrow> char" where
  "hex_digit n = ''0123456789abcdef'' ! (n mod 16)"

definition printable :: "char \<Rightarrow> bool" where
  "printable c =
     (let n = of_char c :: nat
      in (32 \<le> n \<and> n < 127) \<or> (161 \<le> n \<and> n \<noteq> 173))"

definition repr_char :: "char \<Rightarrow> char \<Rightarrow> string" where
  "repr_char q c =
     (if c = CHR 0x5C then [CHR 0x5C, CHR 0x5C]
      else if c = q then [CHR 0x5C, q]
      else if c = CHR 0x09 then [CHR 0x5C, CHR ''t'']
      else if c = CHR 0x0A then [CHR 0x5C, CHR ''n'']
      else if c = CHR 0x0D then [CHR 0x5C, CHR ''r'']
      else if printable c then [c]
      else [CHR 0x5C, CHR ''x'', hex_digit (of_char c div 16), hex_digit (of_char c)])"

definition repr :: "string \<Rightarrow> string" where
  "repr s =
     (let q = (if CHR 0x27 \<in> set s \<and> CHR 0x22 \<notin> set s then CHR 0x22 else CHR 0x27)
      in q # concat (map (repr_char q) s) @ [q])"

subsection \<open>Python dictionaries\<close>

text \<open>
  A \<^verbatim>\<open>dict\<close> is the list of its items in insertion order, with distinct keys.
  \<^verbatim>\<open>d[k] = v\<close> keeps the position of a key that is already there and appends a new one;
  \<^verbatim>\<open>d.update(e)\<close> stores the items of \<open>e\<close> one after the other.
\<close>

type_synonym ('k, 'v) dict = "('k \<times> 'v) list"

definition lookup :: "('k, 'v) dict \<Rightarrow> 'k \<Rightarrow> 'v option" where
  "lookup d k = map_of d k"

definition has_key :: "('k, 'v) dict \<Rightarrow> 'k \<Rightarrow> bool" where
  "has_key d k = (lookup d k \<noteq> None)"

fun setitem :: "('k, 'v) dict \<Rightarrow> 'k \<Rightarrow> 'v \<Rightarrow> ('k, 'v) dict" where
  "setitem [] k v = [(k, v)]"
| "setitem ((k', v') # d) k v =
     (if k' = k then (k, v) # d else (k', v') # setitem d k v)"

definition update :: "('k, 'v) dict \<Rightarrow> ('k, 'v) dict \<Rightarrow> ('k, 'v) dict" where
  "update d e = foldl (\<lambda>acc (k, v). setitem acc k v) d e"

subsection \<open>Exceptions\<close>

text \<open>
  The exceptions the connector raises itself, and \<open>DriverError\<close> for whatever a volume
  driver or the archive utility raises. \<open>str_exn\<close> is \<^verbatim>\<open>'%s' % e\<close>.
\<close>

datatype exn =
    Exception string
  | KeyError string
  | AttributeError string
  | TypeError string
  | IndexError string
  | UnboundLocalError string
  | StopIteration
  | DriverError string


subsection \<open>Values, nodes, volumes\<close>

text \<open>
  A request parameter is a string or, for \<^verbatim>\<open>targets[]\<close>, a list of strings
  (\<^verbatim>\<open>getlist\<close>).
\<close>

datatype param = PStr string | PList "string list"

text \<open>
  Modelled from the spec: the node info a volume driver returns (the drivers are not part
  of the connector's source). The connector reads \<^verbatim>\<open>node['hash']\<close> and
  \<^verbatim>\<open>node.get('phash')\<close> only; \<open>node_phash\<close> is \<open>None\<close> for a volume root, and the display
  metadata is opaque.
\<close>

record node =
  node_hash :: string
  node_phash :: "string option"
  node_meta :: "(string \<times> string) list"

text \<open>What the response envelope holds.\<close>

datatype "value" =
    VNull
  | VBool bool
  | VInt int
  | VStr string
  | VList "value list"
  | VDict "(string \<times> value) list"
  | VNode node

definition nodes :: "node list \<Rightarrow> value" where
  "nodes ns = VList (map VNode ns)"

text \<open>
  The transport request: \<^verbatim>\<open>request.method\<close>, the two parameter sources and the uploads.
\<close>

record request =
  request_method :: string
  GET :: "(string, string list) dict"
  POST :: "(string, string list) dict"
  FILES :: "string list"

text \<open>
  Modelled from the spec: the volume driver capability interface (the drivers are not
  part of the connector's source). \<open>'w\<close> is the storage the drivers and the archive
  utility work on. The queries read the storage and may raise; the mutation methods may
  raise and return the storage they leave behind. \<^verbatim>\<open>get_tree\<close> takes the two flags
  \<^verbatim>\<open>ancestors\<close> and \<^verbatim>\<open>siblings\<close>, both false when the handler leaves them out.
  A method is given a request parameter as the handler passes it: a \<open>param\<close> where the
  handler hands the parameter over unread, a string where it has gone through
  \<^verbatim>\<open>get_volume\<close> first; \<^verbatim>\<open>_find_path\<close> is also called with the \<^verbatim>\<open>phash\<close> of a node,
  which can be \<^verbatim>\<open>None\<close>, and returns a path or \<^verbatim>\<open>None\<close>.
  \<open>is_fs_driver\<close> is \<^verbatim>\<open>issubclass(vol.__class__, FileSystemVolumeDriver)\<close>. Two values
  of this type are equal exactly when they stand for the same driver object, which is
  how the connector compares volumes.
\<close>

record 'w volume =
  get_volume_id :: string
  is_fs_driver :: bool
  get_info :: "string \<Rightarrow> 'w \<Rightarrow> exn + node"
  get_tree :: "string \<Rightarrow> bool \<Rightarrow> bool \<Rightarrow> 'w \<Rightarrow> exn + node list"
  list_children :: "string \<Rightarrow> 'w \<Rightarrow> exn + value"
  find_path :: "string option \<Rightarrow> 'w \<Rightarrow> exn + string option"
  read_file_view :: "request \<Rightarrow> string \<Rightarrow> 'w \<Rightarrow> exn + value"
  mkdir :: "param \<Rightarrow> string \<Rightarrow> 'w \<Rightarrow> (exn + node) \<times> 'w"
  mkfile :: "param \<Rightarrow> string \<Rightarrow> 'w \<Rightarrow> (exn + node) \<times> 'w"
  rename :: "param \<Rightarrow> string \<Rightarrow> 'w \<Rightarrow> (exn + (string, value) dict) \<times> 'w"
  paste :: "param \<Rightarrow> string \<Rightarrow> string \<Rightarrow> bool \<Rightarrow> 'w
              \<Rightarrow> (exn + (string, value) dict) \<times> 'w"
  remove :: "string \<Rightarrow> 'w \<Rightarrow> (exn + value) \<times> 'w"
  upload :: "string list \<Rightarrow> string \<Rightarrow> 'w \<Rightarrow> (exn + (string, value) dict) \<times> 'w"

text \<open>
  What the connector takes from outside the class: the Django setting
  \<^verbatim>\<open>ELFINDER_FS_DRIVER_ROOT\<close> and the two functions of \<^verbatim>\<open>patoolib\<close>.
\<close>

record 'w env =
  ELFINDER_FS_DRIVER_ROOT :: string
  create_archive :: "string \<Rightarrow> string option list \<Rightarrow> 'w \<Rightarrow> (exn + unit) \<times> 'w"
  extract_archive :: "string \<Rightarrow> string \<Rightarrow> 'w \<Rightarrow> (exn + unit) \<times> 'w"

text \<open>
  The calls that change the storage, in the order they are made: a mutation method of
  the volume with the given id, or a function of the archive utility. No handler reads
  this list; it records what the connector did.
\<close>

datatype call =
    Mkdir string param string
  | Mkfile string param string
  | Rename string param string
  | Paste string param string string bool
  | Remove string string
  | Upload string "string list" string
  | CreateArchive string "string option list"
  | ExtractArchive string string

subsection \<open>The connector\<close>

text \<open>
  The fields of \<^verbatim>\<open>__init__\<close>, then the storage and the calls made on it.
\<close>

record 'w connector =
  httpResponse :: "(string, value) dict"
  httpStatusCode :: nat
  httpHeader :: "(string, string) dict"
  data :: "(string, param) dict"
  response :: "(string, value) dict"
  return_view :: "value option"
  is_return_view :: bool
  volumes :: "(string, 'w volume) dict"
  request :: "request option"
  world :: 'w
  calls :: "call list"

definition init :: "'w volume list \<Rightarrow> 'w \<Rightarrow> 'w connector" where
  "init vols w =
     \<lparr> httpResponse = [], httpStatusCode = 200,
       httpHeader = [(''Content-type'', ''application/json'')],
       data = [], response = [], return_view = None, is_return_view = False,
       volumes = foldl (\<lambda>d v. setitem d (get_volume_id v) v) [] vols,
       request = None, world = w, calls = [] \<rparr>"


definition get_init_params :: "(string, value) dict" where
  "get_init_params =
     [(''api'', VStr ''2.0''),
      (''uplMaxSize'', VStr ''128M''),
      (''options'', VDict
         [(''separator'', VStr ''/''),
          (''disabled'', VList []),
          (''archivers'', VDict
             [(''create'', VList [VStr ''application/zip'']),
              (''extract'', VList [VStr ''application/rar'', VStr ''application/zip''])]),
          (''copyOverwrite'', VInt 1)])]"


text \<open>
  \<^verbatim>\<open>get_volume\<close>: the hash is split at every underscore and unpacked into two names; any
  other number of parts is the \<^verbatim>\<open>ValueError\<close> the method turns into its own exception.
  The volume is then looked up by its id, a \<^verbatim>\<open>KeyError\<close> when it is not mounted.
\<close>

definition get_volume :: "'w connector \<Rightarrow> string \<Rightarrow> exn + 'w volume" where
  "get_volume self hash =
     (case split CHR ''_'' hash of
        [volume_id, target] \<Rightarrow>
          (case lookup (volumes self) volume_id of
             None \<Rightarrow> Inl (KeyError volume_id)
           | Some v \<Rightarrow> Inr v)
      | _ \<Rightarrow> Inl (Exception (''Invalid target hash: '' @ hash)))"

text \<open>
  \<^verbatim>\<open>check_command_variables\<close>: the loop over the fields of the contract, leaving at the
  first field that is required and missing or forbidden and present.
\<close>

fun check_fields :: "(string, bool) dict \<Rightarrow> (string, param) dict \<Rightarrow> string list \<Rightarrow> bool" where
  "check_fields command_variables d [] = True"
| "check_fields command_variables d (field # rest) =
     (if lookup command_variables field = Some True \<and> \<not> has_key d field then False
      else if lookup command_variables field = Some False \<and> has_key d field then False
      else check_fields command_variables d rest)"

definition check_command_variables :: "'w connector \<Rightarrow> (string, bool) dict \<Rightarrow> bool" where
  "check_command_variables self command_variables =
     check_fields command_variables (data self) (map fst command_variables)"

subsection \<open>Handlers\<close>

text \<open>
  A handler returns the exception it raised, if any, and the connector as it leaves it:
  what it wrote into the response before raising stays there.
  \<open>attempt r self k\<close> continues with the value of \<open>r\<close>, or raises its exception in \<open>self\<close>.
\<close>

type_synonym 'w outcome = "exn option \<times> 'w connector"

definition attempt :: "exn + 'a \<Rightarrow> 'w connector \<Rightarrow> ('a \<Rightarrow> 'w outcome) \<Rightarrow> 'w outcome" where
  "attempt r self k = (case r of Inl e \<Rightarrow> (Some e, self) | Inr x \<Rightarrow> k x)"

text \<open>\<^verbatim>\<open>self.data[k]\<close>.\<close>

definition getitem :: "(string, 'v) dict \<Rightarrow> string \<Rightarrow> exn + 'v" where
  "getitem d k = (case lookup d k of None \<Rightarrow> Inl (KeyError k) | Some v \<Rightarrow> Inr v)"

text \<open>
  A parameter used as a hash: \<^verbatim>\<open>get_volume\<close> calls \<^verbatim>\<open>split\<close> on it, which a list does not
  have. A parameter iterated over: a list gives its elements, a string its characters.
  A parameter written by \<^verbatim>\<open>format\<close>: a string as it is, a list as Python prints it.
\<close>

definition hash_arg :: "param \<Rightarrow> exn + string" where
  "hash_arg p =
     (case p of
        PStr h \<Rightarrow> Inr h
      | PList l \<Rightarrow> Inl (AttributeError
          (repr ''list'' @ '' object has no attribute '' @ repr ''split'')))"

definition iter :: "param \<Rightarrow> string list" where
  "iter p = (case p of PStr s \<Rightarrow> map (\<lambda>c. [c]) s | PList l \<Rightarrow> l)"

fun join_with :: "string \<Rightarrow> string list \<Rightarrow> string" where
  "join_with sep [] = []"
| "join_with sep [x] = x"
| "join_with sep (x # y # ys) = x @ sep @ join_with sep (y # ys)"

definition format_param :: "param \<Rightarrow> string" where
  "format_param p =
     (case p of
        PStr s \<Rightarrow> s
      | PList l \<Rightarrow> ''['' @ join_with '', '' (map repr l) @ '']'')"

definition mutated :: "'w connector \<Rightarrow> 'w \<Rightarrow> call \<Rightarrow> 'w connector" where
  "mutated self w c = self\<lparr>world := w, calls := calls self @ [c]\<rparr>"





text \<open>
  \<^verbatim>\<open>__open\<close> with an empty target: the loop over the mounted volumes assigns
  \<^verbatim>\<open>response['files']\<close> once for every volume.
\<close>

fun open_volumes :: "bool \<Rightarrow> string list \<Rightarrow> 'w connector \<Rightarrow> 'w outcome" where
  "open_volumes inc [] self = (None, self)"
| "open_volumes inc (volume_id # rest) self =
     attempt (getitem (volumes self) volume_id) self (\<lambda>volume.
     attempt (get_tree volume [] inc inc (world self)) self (\<lambda>tree.
       open_volumes inc rest
         (self\<lparr>response := setitem (response self) ''files'' (nodes tree)\<rparr>)))"

definition open_init :: "'w connector \<Rightarrow> 'w outcome" where
  "open_init self =
     (if has_key (data self) ''init''
      then (None, self\<lparr>response := update (response self) get_init_params\<rparr>)
      else (None, self))"

definition cmd_open :: "'w env \<Rightarrow> 'w connector \<Rightarrow> 'w outcome" where
  "cmd_open env self =
     (let inc = (has_key (data self) ''tree'' \<and> lookup (data self) ''tree'' = Some (PStr ''1''))
      in
      attempt (getitem (data self) ''target'') self (\<lambda>target.
        if target = PStr [] then
          attempt (case volumes self of [] \<Rightarrow> Inl StopIteration | (k, v) # _ \<Rightarrow> Inr v) self
            (\<lambda>volume.
          attempt (get_info volume [] (world self)) self (\<lambda>cwd.
            case open_volumes inc (map fst (volumes self))
                   (self\<lparr>response := setitem (response self) ''cwd'' (VNode cwd)\<rparr>) of
              (Some e, self') \<Rightarrow> (Some e, self')
            | (None, self') \<Rightarrow> open_init self'))
        else
          attempt (hash_arg target) self (\<lambda>h.
          attempt (get_volume self h) self (\<lambda>volume.
          attempt (get_info volume h (world self)) self (\<lambda>cwd.
            let self1 = self\<lparr>response := setitem (response self) ''cwd'' (VNode cwd)\<rparr>
            in
            attempt (get_tree volume h inc inc (world self)) self1 (\<lambda>tree.
              open_init
                (self1\<lparr>response := setitem (response self1) ''files'' (nodes tree)\<rparr>)))))))"





definition cmd_paste :: "'w env \<Rightarrow> 'w connector \<Rightarrow> 'w outcome" where
  "cmd_paste env self =
     attempt (getitem (data self) ''targets[]'') self (\<lambda>targets.
     attempt (getitem (data self) ''src'') self (\<lambda>source.
     attempt (getitem (data self) ''dst'') self (\<lambda>dest.
     attempt (getitem (data self) ''cut'') self (\<lambda>cut_param.
       let cut = (cut_param = PStr ''1'') in
       attempt (hash_arg source) self (\<lambda>src.
       attempt (get_volume self src) self (\<lambda>source_volume.
       attempt (hash_arg dest) self (\<lambda>dst.
       attempt (get_volume self dst) self (\<lambda>dest_volume.
         if source_volume \<noteq> dest_volume
         then (Some (Exception ''Moving between volumes is not supported.''), self)
         else
           case paste dest_volume targets src dst cut (world self) of
             (r, w) \<Rightarrow>
               let self1 = mutated self w
                     (Paste (get_volume_id dest_volume) targets src dst cut)
               in attempt r self1 (\<lambda>m.
                    (None, self1\<lparr>response := update (response self1) m\<rparr>))))))))))"

text \<open>
  \<^verbatim>\<open>__archive\<close>. The loop that resolves the targets, and the loop that looks in the tree
  for the nodes whose path is the given one (the same loop ends \<^verbatim>\<open>__extract\<close>).
\<close>

fun find_paths ::
  "'w volume \<Rightarrow> 'w \<Rightarrow> string list \<Rightarrow> string option list \<Rightarrow> exn + string option list" where
  "find_paths v w [] files = Inr files"
| "find_paths v w (trg # rest) files =
     (case find_path v (Some trg) w of
        Inl e \<Rightarrow> Inl e
      | Inr orig_abs_path \<Rightarrow> find_paths v w rest (files @ [orig_abs_path]))"

fun added_nodes ::
  "'w volume \<Rightarrow> 'w \<Rightarrow> string \<Rightarrow> node list \<Rightarrow> node list \<Rightarrow> exn + node list" where
  "added_nodes v w path [] added = Inr added"
| "added_nodes v w path (n # rest) added =
     (case find_path v (Some (node_hash n)) w of
        Inl e \<Rightarrow> Inl e
      | Inr p \<Rightarrow> added_nodes v w path rest (if p = Some path then added @ [n] else added))"

definition type_map :: "(string, string) dict" where
  "type_map = [(''application/x-tar'', ''tar''), (''application/zip'', ''zip'')]"

definition type_ext :: "param \<Rightarrow> exn + string" where
  "type_ext p =
     (case p of
        PStr t \<Rightarrow> getitem type_map t
      | PList l \<Rightarrow> Inl (TypeError (''unhashable type: '' @ repr ''list'')))"

text \<open>
  The path of the target is \<^verbatim>\<open>None\<close> or empty: \<^verbatim>\<open>zipfile\<close> and \<^verbatim>\<open>added\<close> were never
  assigned. The loop over the tree reads \<^verbatim>\<open>zipfile\<close> at its first node, after resolving
  the node's path; with no node, the statement after the loop reads \<^verbatim>\<open>added\<close>.
\<close>

definition archive_unassigned :: "'w volume \<Rightarrow> string \<Rightarrow> 'w connector \<Rightarrow> 'w outcome" where
  "archive_unassigned source_volume h self =
     attempt (get_tree source_volume h False False (world self)) self (\<lambda>tree.
       case tree of
         [] \<Rightarrow> (Some (UnboundLocalError ''added''), self)
       | n # _ \<Rightarrow>
           attempt (find_path source_volume (Some (node_hash n)) (world self)) self (\<lambda>p.
             (Some (UnboundLocalError ''zipfile''), self)))"

definition cmd_archive :: "'w env \<Rightarrow> 'w connector \<Rightarrow> 'w outcome" where
  "cmd_archive env self =
     attempt (getitem (data self) ''target'') self (\<lambda>target.
     attempt (getitem (data self) ''targets[]'') self (\<lambda>targets.
     attempt (getitem (data self) ''name'') self (\<lambda>name.
     attempt (getitem (data self) ''type'') self (\<lambda>type.
     attempt (hash_arg target) self (\<lambda>h.
     attempt (get_volume self h) self (\<lambda>source_volume.
     attempt (find_path source_volume (Some h) (world self)) self (\<lambda>abs_path.
       case abs_path of
         None \<Rightarrow> archive_unassigned source_volume h self
       | Some p \<Rightarrow>
           if p = [] then archive_unassigned source_volume h self
           else
             attempt (type_ext type) self (\<lambda>ext.
               let zipfile = path_join p (format_param name @ ''.'' @ ext) in
               attempt (find_paths source_volume (world self) (iter targets) []) self
                 (\<lambda>files.
                 case create_archive env zipfile files (world self) of
                   (r, w) \<Rightarrow>
                     let self1 = mutated self w (CreateArchive zipfile files) in
                     attempt r self1 (\<lambda>u.
                     attempt (get_tree source_volume h False False w) self1 (\<lambda>tree.
                     attempt (added_nodes source_volume w zipfile tree []) self1 (\<lambda>added.
                       (None, self1\<lparr>response :=
                          update (response self1) [(''added'', nodes added)]\<rparr>)))))))))))))"

text \<open>
  \<^verbatim>\<open>__extract\<close>. \<^verbatim>\<open>path.split('/')[-1].split('.')[0]\<close> is the last component of the path
  up to its first dot; \<^verbatim>\<open>split\<close> on \<^verbatim>\<open>None\<close> and \<^verbatim>\<open>os.path.join\<close> on \<^verbatim>\<open>None\<close> raise.
\<close>

definition archive_name_of :: "string \<Rightarrow> string" where
  "archive_name_of path = hd (split CHR ''.'' (last (split CHR ''/'' path)))"

definition none_split :: exn where
  "none_split = AttributeError
     (repr ''NoneType'' @ '' object has no attribute '' @ repr ''split'')"

definition cmd_extract :: "'w env \<Rightarrow> 'w connector \<Rightarrow> 'w outcome" where
  "cmd_extract env self =
     attempt (getitem (data self) ''target'') self (\<lambda>target.
     attempt (hash_arg target) self (\<lambda>h.
     attempt (get_volume self h) self (\<lambda>source_volume.
     attempt (get_info source_volume h (world self)) self (\<lambda>archive_file.
     attempt (find_path source_volume (Some h) (world self)) self (\<lambda>found.
     attempt (case found of None \<Rightarrow> Inl none_split | Some p \<Rightarrow> Inr p) self
       (\<lambda>archive_file_path.
       let archive_name = archive_name_of archive_file_path in
       attempt (find_path source_volume (node_phash archive_file) (world self)) self
         (\<lambda>parent_path.
       attempt (case parent_path of
                  None \<Rightarrow> Inl (TypeError
                    ''expected str, bytes or os.PathLike object, not NoneType'')
                | Some d \<Rightarrow> Inr (path_join d archive_name)) self (\<lambda>folder_path.
       attempt (case node_phash archive_file of None \<Rightarrow> Inl none_split | Some q \<Rightarrow> Inr q)
         self (\<lambda>ph.
       attempt (get_volume self ph) self (\<lambda>parent_volume.
         case mkdir parent_volume (PStr archive_name) ph (world self) of
           (r1, w1) \<Rightarrow>
             let self1 = mutated self w1
                   (Mkdir (get_volume_id parent_volume) (PStr archive_name) ph)
             in
             attempt r1 self1 (\<lambda>made.
               case extract_archive env archive_file_path folder_path w1 of
                 (r2, w2) \<Rightarrow>
                   let self2 = mutated self1 w2
                         (ExtractArchive archive_file_path folder_path)
                   in
                   attempt r2 self2 (\<lambda>u.
                   attempt (get_tree source_volume ph False False w2) self2 (\<lambda>tree.
                   attempt (added_nodes source_volume w2 folder_path tree []) self2
                     (\<lambda>added.
                     (None, self2\<lparr>response :=
                        update (response self2) [(''added'', nodes added)]\<rparr>)))))))))))))))"

text \<open>
  \<^verbatim>\<open>__remove\<close>: \<^verbatim>\<open>response['removed']\<close> starts empty and every target appends the
  result of \<^verbatim>\<open>remove\<close> on its own volume.
\<close>

definition type_name :: "value \<Rightarrow> string" where
  "type_name x =
     (case x of
        VNull \<Rightarrow> ''NoneType'' | VBool b \<Rightarrow> ''bool'' | VInt i \<Rightarrow> ''int'' | VStr s \<Rightarrow> ''str''
      | VList l \<Rightarrow> ''list'' | VDict d \<Rightarrow> ''dict'' | VNode n \<Rightarrow> ''dict'')"

definition removed_list :: "(string, value) dict \<Rightarrow> exn + value list" where
  "removed_list resp =
     (case lookup resp ''removed'' of
        None \<Rightarrow> Inl (KeyError ''removed'')
      | Some (VList l) \<Rightarrow> Inr l
      | Some x \<Rightarrow> Inl (AttributeError
          (repr (type_name x) @ '' object has no attribute '' @ repr ''append'')))"

fun remove_targets :: "string list \<Rightarrow> 'w connector \<Rightarrow> 'w outcome" where
  "remove_targets [] self = (None, self)"
| "remove_targets (target # rest) self =
     attempt (get_volume self target) self (\<lambda>volume.
     attempt (removed_list (response self)) self (\<lambda>l.
       case remove volume target (world self) of
         (r, w) \<Rightarrow>
           let self1 = mutated self w (Remove (get_volume_id volume) target) in
           attempt r self1 (\<lambda>x.
             remove_targets rest
               (self1\<lparr>response := setitem (response self1) ''removed'' (VList (l @ [x]))\<rparr>))))"

definition cmd_remove :: "'w env \<Rightarrow> 'w connector \<Rightarrow> 'w outcome" where
  "cmd_remove env self =
     attempt (getitem (data self) ''targets[]'') self (\<lambda>targets.
       remove_targets (iter targets)
         (self\<lparr>response := setitem (response self) ''removed'' (VList [])\<rparr>))"


subsection \<open>The dispatcher\<close>











subsection \<open>Example volumes\<close>

text \<open>
  A storage for the examples: the absolute paths that exist, in listing order.
  \<open>flat_volume vid root fs\<close> serves the directory \<open>root\<close> and the entries directly under it.
  The hash of the entry \<open>root/name\<close> is \<open>vid_name\<close>, the hash of the root is \<open>vid_\<close>, and
  the empty hash stands for the root as well.
\<close>

definition local_name :: "string \<Rightarrow> string" where
  "local_name h = drop (Suc (length (takeWhile (\<lambda>c. c \<noteq> CHR ''_'') h))) h"

definition entry_path :: "string \<Rightarrow> string \<Rightarrow> string" where
  "entry_path root h = (if local_name h = [] then root else root @ ''/'' @ local_name h)"

definition entry_node :: "string \<Rightarrow> string \<Rightarrow> string \<Rightarrow> node" where
  "entry_node vid root p =
     \<lparr> node_hash = vid @ ''_'' @ drop (Suc (length root)) p,
       node_phash = (if p = root then None else Some (vid @ ''_'')),
       node_meta = [] \<rparr>"

definition children :: "string \<Rightarrow> string list \<Rightarrow> string list" where
  "children root w =
     filter (\<lambda>p. prefix (root @ ''/'') p \<and> CHR ''/'' \<notin> set (drop (Suc (length root)) p)) w"

definition missing :: "string \<Rightarrow> exn" where
  "missing p = DriverError (''No such file or directory: '' @ p)"

definition flat_volume :: "string \<Rightarrow> string \<Rightarrow> bool \<Rightarrow> string list volume" where
  "flat_volume vid root fs =
     \<lparr> get_volume_id = vid,
       is_fs_driver = fs,
       get_info = (\<lambda>h w. if entry_path root h \<in> set w
                           then Inr (entry_node vid root (entry_path root h))
                           else Inl (missing (entry_path root h))),
       get_tree = (\<lambda>h a s w. Inr (map (entry_node vid root) (children root w))),
       list_children = (\<lambda>h w. Inr (VList (map VStr (children root w)))),
       find_path = (\<lambda>h w. Inr (map_option (entry_path root) h)),
       read_file_view = (\<lambda>r h w. Inr (VStr (entry_path root h))),
       mkdir = (\<lambda>name h w.
                  let p = path_join (entry_path root h) (format_param name)
                  in (Inr (entry_node vid root p), w @ [p])),
       mkfile = (\<lambda>name h w.
                  let p = path_join (entry_path root h) (format_param name)
                  in (Inr (entry_node vid root p), w @ [p])),
       rename = (\<lambda>name h w. (Inr [], w)),
       paste = (\<lambda>targets src dst cut w. (Inr [], w)),
       remove = (\<lambda>h w. if entry_path root h \<in> set w
                         then (Inr (VStr h), removeAll (entry_path root h) w)
                         else (Inl (missing (entry_path root h)), w)),
       upload = (\<lambda>files h w. (Inr [], w)) \<rparr>"

text \<open>A volume that is not backed by the filesystem resolves no path.\<close>

definition pathless_volume :: "string \<Rightarrow> string \<Rightarrow> string list volume" where
  "pathless_volume vid root = (flat_volume vid root False)\<lparr>find_path := (\<lambda>h w. Inr None)\<rparr>"

definition example_env :: "string list env" where
  "example_env =
     \<lparr> ELFINDER_FS_DRIVER_ROOT = ''/a'',
       create_archive = (\<lambda>zipfile files w. (Inr (), w @ [zipfile])),
       extract_archive = (\<lambda>path outdir w. (Inr (), w)) \<rparr>"

definition vol_a :: "string list volume" where
  "vol_a = flat_volume ''A'' ''/a'' True"

definition vol_b :: "string list volume" where
  "vol_b = flat_volume ''B'' ''/b'' True"

definition example_connector :: "string list connector" where
  "example_connector = init [vol_a, vol_b] [''/a'', ''/a/f'', ''/a/sub'', ''/b'', ''/b/g'']"

text \<open>The requests of the examples for \<^verbatim>\<open>archive\<close> and \<^verbatim>\<open>extract\<close>.\<close>

definition archive_request :: "string \<Rightarrow> string list connector" where
  "archive_request n =
     example_connector\<lparr>data := [(''target'', PStr ''A_''), (''targets[]'', PList [''A_f'']),
                                  (''name'', PStr n), (''type'', PStr ''application/zip'')]\<rparr>"

definition extract_request :: "string list connector" where
  "extract_request =
     example_connector\<lparr>world := [''/a'', ''/a/b.zip''],
                        data := [(''target'', PStr ''A_b.zip'')]\<rparr>"


text \<open>
  The filename stem in the spec's words, for comparison with what \<^verbatim>\<open>__extract\<close> computes:
  the file name without its last suffix (as \<^verbatim>\<open>pathlib\<close> defines the stem: a leading or a
  trailing dot starts no suffix).
\<close>

definition filename_stem :: "string \<Rightarrow> string" where
  "filename_stem name =
     (let suffix = rev (takeWhile (\<lambda>c. c \<noteq> CHR ''.'') (rev name))
      in if CHR ''.'' \<in> set name \<and> suffix \<noteq> [] \<and> Suc (length suffix) < length name
         then take (length name - Suc (length suffix)) name
         else name)"

text \<open>An archive whose file name has two dots, and a failing request to remove.\<close>

definition extract_dotted_request :: "string list connector" where
  "extract_dotted_request =
     example_connector\<lparr>world := [''/a'', ''/a/r.v1.zip''],
                        data := [(''target'', PStr ''A_r.v1.zip'')]\<rparr>"


section \<open>Properties\<close>

subsection \<open>Strings and dictionaries\<close>

lemma split_not_Nil: "split sep s \<noteq> []"
  by (induction s) (auto split: list.splits)

lemma split_one: "split sep s = [b] \<longleftrightarrow> (s = b \<and> sep \<notin> set b)"
proof (induction s arbitrary: b)
  case Nil
  then show ?case by auto
next
  case (Cons c cs)
  show ?case
  proof (cases "c = sep")
    case True
    then show ?thesis using split_not_Nil[of sep cs] by auto
  next
    case False
    obtain p ps where sp: "split sep cs = p # ps"
      using split_not_Nil[of sep cs] by (cases "split sep cs") auto
    have "split sep (c # cs) = [b] \<longleftrightarrow> (b = c # p \<and> ps = [])"
      using False sp by auto
    also have "\<dots> \<longleftrightarrow> (\<exists>b'. b = c # b' \<and> split sep cs = [b'])"
      using sp by auto
    also have "\<dots> \<longleftrightarrow> (\<exists>b'. b = c # b' \<and> cs = b' \<and> sep \<notin> set b')"
      using Cons.IH by simp
    also have "\<dots> \<longleftrightarrow> (c # cs = b \<and> sep \<notin> set b)"
      using False by auto
    finally show ?thesis .
  qed
qed

lemma split_append: "sep \<notin> set v \<Longrightarrow> split sep (v @ sep # t) = v # split sep t"
  by (induction v) auto

lemma length_split: "length (split sep s) = Suc (length (filter (\<lambda>c. c = sep) s))"
  by (induction s) (auto split: list.splits)

lemma split_two_intro:
  "sep \<notin> set v \<Longrightarrow> sep \<notin> set t \<Longrightarrow> split sep (v @ sep # t) = [v, t]"
  by (simp add: split_append split_one[THEN iffD2])

lemma lookup_in_keys: "lookup d k = Some v \<Longrightarrow> k \<in> fst ` set d"
  unfolding lookup_def by (metis map_of_eq_None_iff option.distinct(1))


lemma get_volume_two:
  "split CHR ''_'' h = [v, t] \<Longrightarrow>
   get_volume self h = (case lookup (volumes self) v of None \<Rightarrow> Inl (KeyError v) | Some x \<Rightarrow> Inr x)"
  by (simp add: get_volume_def)

lemma get_volume_one:
  "split CHR ''_'' h = [a] \<Longrightarrow> get_volume self h = Inl (Exception (''Invalid target hash: '' @ h))"
  by (simp add: get_volume_def)

lemma get_volume_many:
  "split CHR ''_'' h = a # b # c # ds \<Longrightarrow>
   get_volume self h = Inl (Exception (''Invalid target hash: '' @ h))"
  by (simp add: get_volume_def)

lemma split_three:
  assumes "sep \<in> set v \<or> sep \<in> set t"
  shows "\<exists>a b c ds. split sep (v @ sep # t) = a # b # c # ds"
proof -
  have "filter (\<lambda>c. c = sep) v \<noteq> [] \<or> filter (\<lambda>c. c = sep) t \<noteq> []"
    using assms by (auto simp: filter_empty_conv)
  then have "1 \<le> length (filter (\<lambda>c. c = sep) v) + length (filter (\<lambda>c. c = sep) t)"
    by (cases "filter (\<lambda>c. c = sep) v"; cases "filter (\<lambda>c. c = sep) t") auto
  then have "3 \<le> length (split sep (v @ sep # t))"
    by (simp add: length_split)
  then show ?thesis
    by (cases "split sep (v @ sep # t)"; cases "tl (split sep (v @ sep # t))";
        cases "tl (tl (split sep (v @ sep # t)))") auto
qed

lemma volumes_example: "volumes example_connector = [(''A'', vol_a), (''B'', vol_b)]"
  by (simp add: example_connector_def init_def vol_a_def vol_b_def flat_volume_def)

lemma check_fields_iff:
  "check_fields cv d fs \<longleftrightarrow>
     (\<forall>f \<in> set fs. (lookup cv f = Some True \<longrightarrow> has_key d f) \<and>
                   (lookup cv f = Some False \<longrightarrow> \<not> has_key d f))"
  by (induction fs) auto

subsection \<open>The hash resolver\<close>

text \<open>
  C1 (as amended). For an identifier \<open>v_t\<close> whose volume id \<open>v\<close> is mounted: when neither
  \<open>v\<close> nor \<open>t\<close> contains an underscore, the hash splits into exactly \<open>v\<close> and \<open>t\<close> and
  \<^verbatim>\<open>get_volume\<close> returns the volume mounted under \<open>v\<close> (the volume alone, the method
  returns no target); when \<open>v\<close> or \<open>t\<close> contains an underscore, the split is at every
  underscore, not at the first one, and \<^verbatim>\<open>get_volume\<close> raises
  \<^verbatim>\<open>Invalid target hash\<close>.
\<close>

theorem get_volume_resolves:
  assumes "lookup (volumes self) v = Some vol"
  shows "(CHR ''_'' \<notin> set v \<and> CHR ''_'' \<notin> set t \<longrightarrow>
            split CHR ''_'' (v @ CHR ''_'' # t) = [v, t] \<and>
            get_volume self (v @ CHR ''_'' # t) = Inr vol) \<and>
         (CHR ''_'' \<in> set v \<or> CHR ''_'' \<in> set t \<longrightarrow>
            get_volume self (v @ CHR ''_'' # t) =
              Inl (Exception (''Invalid target hash: '' @ v @ CHR ''_'' # t)))"
proof (intro conjI impI)
  assume vt: "CHR ''_'' \<notin> set v \<and> CHR ''_'' \<notin> set t"
  show sp: "split CHR ''_'' (v @ CHR ''_'' # t) = [v, t]"
    using vt by (simp add: split_two_intro)
  show "get_volume self (v @ CHR ''_'' # t) = Inr vol"
    using get_volume_two[OF sp, of self] assms by simp
next
  assume "CHR ''_'' \<in> set v \<or> CHR ''_'' \<in> set t"
  then obtain a b c ds where "split CHR ''_'' (v @ CHR ''_'' # t) = a # b # c # ds"
    using split_three by blast
  then show "get_volume self (v @ CHR ''_'' # t) =
      Inl (Exception (''Invalid target hash: '' @ v @ CHR ''_'' # t))"
    by (rule get_volume_many)
qed

theorem get_volume_resolves_witness:
  "lookup (volumes example_connector) ''A'' = Some vol_a \<and>
   get_volume example_connector ''A_f'' = Inr vol_a \<and>
   get_volume example_connector ''A_f_g'' = Inl (Exception ''Invalid target hash: A_f_g'')"
proof -
  have l: "lookup (volumes example_connector) ''A'' = Some vol_a"
    by (simp add: volumes_example lookup_def)
  show ?thesis
    using l get_volume_resolves[OF l, of "''f''"] get_volume_resolves[OF l, of "''f_g''"]
    by simp
qed

text \<open>
  The claim as written fails: the local target \<open>f_g\<close> contains the separator, the volume
  \<open>A\<close> is mounted, and resolving \<open>A_f_g\<close> raises instead of returning the volume.
\<close>

theorem get_volume_first_separator_counterexample:
  "lookup (volumes example_connector) ''A'' = Some vol_a \<and>
   get_volume example_connector (''A'' @ ''_'' @ ''f_g'') =
     Inl (Exception ''Invalid target hash: A_f_g'')"
  by (simp add: volumes_example lookup_def get_volume_def)

text \<open>
  C8 (as amended). An identifier with no underscore raises \<^verbatim>\<open>Invalid target hash\<close>. An
  identifier \<open>v_t\<close> whose part \<open>v\<close> before the first underscore is not a mounted volume id
  raises as well and returns no volume: the \<^verbatim>\<open>KeyError\<close> of the registry when \<open>t\<close> has no
  further underscore, and \<^verbatim>\<open>Invalid target hash\<close>, the exception of a malformed
  identifier, when it has one.
\<close>

theorem get_volume_fails:
  "(CHR ''_'' \<notin> set h \<longrightarrow>
      get_volume self h = Inl (Exception (''Invalid target hash: '' @ h))) \<and>
   (CHR ''_'' \<notin> set v \<and> lookup (volumes self) v = None \<longrightarrow>
      (CHR ''_'' \<notin> set t \<longrightarrow> get_volume self (v @ CHR ''_'' # t) = Inl (KeyError v)) \<and>
      (CHR ''_'' \<in> set t \<longrightarrow>
         get_volume self (v @ CHR ''_'' # t) =
           Inl (Exception (''Invalid target hash: '' @ v @ CHR ''_'' # t))))"
proof (intro conjI impI)
  assume "CHR ''_'' \<notin> set h"
  then have "split CHR ''_'' h = [h]" by (simp add: split_one)
  then show "get_volume self h = Inl (Exception (''Invalid target hash: '' @ h))"
    by (rule get_volume_one)
next
  assume a: "CHR ''_'' \<notin> set v \<and> lookup (volumes self) v = None"
    and t: "CHR ''_'' \<notin> set t"
  have "split CHR ''_'' (v @ CHR ''_'' # t) = [v, t]"
    using a t by (simp add: split_two_intro)
  from get_volume_two[OF this, of self] a
  show "get_volume self (v @ CHR ''_'' # t) = Inl (KeyError v)" by simp
next
  assume "CHR ''_'' \<in> set t"
  then obtain p q r ds where "split CHR ''_'' (v @ CHR ''_'' # t) = p # q # r # ds"
    using split_three[of "CHR ''_''" v t] by blast
  then show "get_volume self (v @ CHR ''_'' # t) =
      Inl (Exception (''Invalid target hash: '' @ v @ CHR ''_'' # t))"
    by (rule get_volume_many)
qed

theorem get_volume_fails_witness:
  "get_volume example_connector ''Af'' = Inl (Exception ''Invalid target hash: Af'') \<and>
   lookup (volumes example_connector) ''C'' = None \<and>
   get_volume example_connector ''C_f'' = Inl (KeyError ''C'') \<and>
   get_volume example_connector ''C_f_g'' = Inl (Exception ''Invalid target hash: C_f_g'')"
proof -
  have n: "lookup (volumes example_connector) ''C'' = None"
    by (simp add: volumes_example lookup_def)
  show ?thesis
    using n get_volume_fails[of "''Af''" example_connector "''C''" "''f''"]
      get_volume_fails[of "''Af''" example_connector "''C''" "''f_g''"]
    by simp
qed

text \<open>
  The claim as written fails where it says that the error tells an unknown volume from a
  malformed identifier: \<open>C\<close> is not mounted, and \<open>C_f_g\<close> raises the same exception as the
  identifier \<open>Cfg\<close>, which has no separator.
\<close>

theorem get_volume_unknown_volume_counterexample:
  "lookup (volumes example_connector) ''C'' = None \<and>
   get_volume example_connector ''C_f_g'' = Inl (Exception ''Invalid target hash: C_f_g'') \<and>
   get_volume example_connector ''Cfg'' = Inl (Exception ''Invalid target hash: Cfg'')"
  by (simp add: volumes_example lookup_def get_volume_def)

subsection \<open>The request validator\<close>

text \<open>
  C3. \<^verbatim>\<open>check_command_variables\<close> accepts exactly when every key the contract maps to
  \<open>True\<close> is in the parameters and every key it maps to \<open>False\<close> is not; two parameter
  sets that have the same contract keys get the same verdict, whatever other keys they
  hold.
\<close>

theorem check_command_variables_iff:
  "(check_command_variables self cv \<longleftrightarrow>
      (\<forall>k. (lookup cv k = Some True \<longrightarrow> has_key (data self) k) \<and>
           (lookup cv k = Some False \<longrightarrow> \<not> has_key (data self) k))) \<and>
   ((\<forall>k \<in> fst ` set cv. has_key (data self') k = has_key (data self) k) \<longrightarrow>
      check_command_variables self' cv = check_command_variables self cv)"
proof -
  have keys: "k \<in> set (map fst cv)" if "lookup cv k = Some b" for k b
    using lookup_in_keys[OF that] by simp
  have 1: "check_command_variables s cv \<longleftrightarrow>
      (\<forall>k. (lookup cv k = Some True \<longrightarrow> has_key (data s) k) \<and>
           (lookup cv k = Some False \<longrightarrow> \<not> has_key (data s) k))" for s :: "'a connector"
    unfolding check_command_variables_def check_fields_iff using keys by blast
  have 2: "check_command_variables self' cv = check_command_variables self cv"
    if "\<forall>k \<in> fst ` set cv. has_key (data self') k = has_key (data self) k"
    unfolding check_command_variables_def check_fields_iff using that by auto
  show ?thesis using 1[of self] 2 by blast
qed

theorem check_command_variables_iff_witness:
  "check_command_variables
     (example_connector\<lparr>data := [(''target'', PStr ''A_''), (''name'', PStr ''n''), (''init'', PStr ''1'')]\<rparr>)
     [(''target'', True), (''name'', True)] \<and>
   \<not> check_command_variables
     (example_connector\<lparr>data := [(''target'', PStr ''A_''), (''init'', PStr ''1'')]\<rparr>)
     [(''target'', True), (''name'', True)] \<and>
   check_command_variables
     (example_connector\<lparr>data := [(''target'', PStr ''A_''), (''name'', PStr ''n'')]\<rparr>)
     [(''target'', True), (''name'', True)]"
  using check_command_variables_iff
    [of "example_connector\<lparr>data := [(''target'', PStr ''A_''), (''name'', PStr ''n''), (''init'', PStr ''1'')]\<rparr>"
        "[(''target'', True), (''name'', True)]"
        "example_connector\<lparr>data := [(''target'', PStr ''A_''), (''name'', PStr ''n'')]\<rparr>"]
    check_command_variables_iff
    [of "example_connector\<lparr>data := [(''target'', PStr ''A_''), (''init'', PStr ''1'')]\<rparr>"
        "[(''target'', True), (''name'', True)]"
        "example_connector"]
  by (simp add: lookup_def has_key_def)

subsection \<open>Handlers: helper facts\<close>

lemma getitem_Some: "lookup d k = Some v \<Longrightarrow> getitem d k = Inr v"
  by (simp add: getitem_def)

lemma lookup_setitem: "lookup (setitem d k v) k' = (if k' = k then Some v else lookup d k')"
  by (induction d) (auto simp: lookup_def)

lemma get_volume_volumes: "volumes s' = volumes s \<Longrightarrow> get_volume s' h = get_volume s h"
  by (auto simp: get_volume_def split: list.splits)

lemma vol_a_neq_b: "vol_a \<noteq> vol_b"
  by (simp add: vol_a_def vol_b_def flat_volume_def)

lemma get_volume_example:
  "get_volume (example_connector\<lparr>data := d\<rparr>) ''A_'' = Inr vol_a"
  "get_volume (example_connector\<lparr>data := d\<rparr>) ''B_'' = Inr vol_b"
  "get_volume (example_connector\<lparr>data := d\<rparr>) ''A_f'' = Inr vol_a"
  "get_volume (example_connector\<lparr>data := d\<rparr>) ''B_g'' = Inr vol_b"
  by (simp_all add: get_volume_def volumes_example lookup_def)

lemma flat_volume_fields:
  "get_volume_id (flat_volume vid root fs) = vid"
  "is_fs_driver (flat_volume vid root fs) = fs"
  "get_info (flat_volume vid root fs) h w =
     (if entry_path root h \<in> set w then Inr (entry_node vid root (entry_path root h))
      else Inl (missing (entry_path root h)))"
  "get_tree (flat_volume vid root fs) h a s w = Inr (map (entry_node vid root) (children root w))"
  "find_path (flat_volume vid root fs) ho w = Inr (map_option (entry_path root) ho)"
  "mkdir (flat_volume vid root fs) name h w =
     (Inr (entry_node vid root (path_join (entry_path root h) (format_param name))),
      w @ [path_join (entry_path root h) (format_param name)])"
  "remove (flat_volume vid root fs) h w =
     (if entry_path root h \<in> set w then (Inr (VStr h), removeAll (entry_path root h) w)
      else (Inl (missing (entry_path root h)), w))"
  by (simp_all add: flat_volume_def Let_def)

lemma example_connector_fields:
  "volumes example_connector = [(''A'', vol_a), (''B'', vol_b)]"
  "world example_connector = [''/a'', ''/a/f'', ''/a/sub'', ''/b'', ''/b/g'']"
  "response example_connector = []"
  "calls example_connector = []"
  "data example_connector = []"
  "httpStatusCode example_connector = 200"
  "httpHeader example_connector = [(''Content-type'', ''application/json'')]"
  by (simp_all add: volumes_example) (simp_all add: example_connector_def init_def)

lemma example_env_fields:
  "ELFINDER_FS_DRIVER_ROOT example_env = ''/a''"
  "create_archive example_env zipfile files w = (Inr (), w @ [zipfile])"
  "extract_archive example_env path outdir w = (Inr (), w)"
  by (simp_all add: example_env_def)

lemmas example_simps =
  flat_volume_fields[of "''A''" "''/a''" True, folded vol_a_def]
  flat_volume_fields[of "''B''" "''/b''" True, folded vol_b_def]
  example_connector_fields example_env_fields
  entry_path_def entry_node_def children_def local_name_def missing_def path_join_def
  lookup_def has_key_def getitem_def attempt_def hash_arg_def iter_def format_param_def
  mutated_def nodes_def update_def get_volume_def Let_def

lemma remove_targets_chain:
  assumes "length vs = length ts" "length rs = length ts" "length ws = Suc (length ts)"
    and "ws ! 0 = world self"
    and "\<forall>i<length ts. get_volume self (ts ! i) = Inr (vs ! i)"
    and "\<forall>i<length ts. remove (vs ! i) (ts ! i) (ws ! i) = (Inr (rs ! i), ws ! Suc i)"
    and "lookup (response self) ''removed'' = Some (VList l0)"
  shows "\<exists>self'. remove_targets ts self = (None, self') \<and>
           lookup (response self') ''removed'' = Some (VList (l0 @ rs)) \<and>
           calls self' = calls self @ map2 (\<lambda>v t. Remove (get_volume_id v) t) vs ts \<and>
           world self' = last ws"
  using assms
proof (induction ts arbitrary: self vs rs ws l0)
  case Nil
  then show ?case by (cases ws) auto
next
  case (Cons t ts)
  from Cons.prems(1) obtain v vs' where vs: "vs = v # vs'" "length vs' = length ts"
    by (cases vs) auto
  from Cons.prems(2) obtain r rs' where rs: "rs = r # rs'" "length rs' = length ts"
    by (cases rs) auto
  from Cons.prems(3) obtain w0 ws' where ws: "ws = w0 # ws'" "length ws' = Suc (length ts)"
    by (cases ws) auto
  have w0: "w0 = world self" using Cons.prems(4) ws by simp
  have gv: "get_volume self t = Inr v" using Cons.prems(5) vs by auto
  have rm: "remove v t (world self) = (Inr r, ws' ! 0)"
    using Cons.prems(6) vs rs ws w0 by auto
  define self2 where
    "self2 = (mutated self (ws' ! 0) (Remove (get_volume_id v) t))
               \<lparr>response := setitem (response self) ''removed'' (VList (l0 @ [r]))\<rparr>"
  have step: "remove_targets (t # ts) self = remove_targets ts self2"
    using gv rm Cons.prems(7)
    by (simp add: attempt_def removed_list_def self2_def mutated_def)
  have vols: "volumes self2 = volumes self" by (simp add: self2_def mutated_def)
  have "\<exists>self'. remove_targets ts self2 = (None, self') \<and>
           lookup (response self') ''removed'' = Some (VList ((l0 @ [r]) @ rs')) \<and>
           calls self' = calls self2 @ map2 (\<lambda>v t. Remove (get_volume_id v) t) vs' ts \<and>
           world self' = last ws'"
  proof (rule Cons.IH[OF vs(2) rs(2) ws(2)])
    show "ws' ! 0 = world self2" by (simp add: self2_def mutated_def)
    show "\<forall>i<length ts. get_volume self2 (ts ! i) = Inr (vs' ! i)"
      using Cons.prems(5) vs by (auto simp: get_volume_volumes[OF vols])
    show "\<forall>i<length ts. remove (vs' ! i) (ts ! i) (ws' ! i) = (Inr (rs' ! i), ws' ! Suc i)"
      using Cons.prems(6) vs rs ws by auto
    show "lookup (response self2) ''removed'' = Some (VList (l0 @ [r]))"
      by (simp add: self2_def lookup_setitem)
  qed
  then obtain self' where s': "remove_targets ts self2 = (None, self')"
    "lookup (response self') ''removed'' = Some (VList ((l0 @ [r]) @ rs'))"
    "calls self' = calls self2 @ map2 (\<lambda>v t. Remove (get_volume_id v) t) vs' ts"
    "world self' = last ws'"
    by blast
  have "calls self2 = calls self @ [Remove (get_volume_id v) t]"
    by (simp add: self2_def mutated_def)
  moreover have "last ws = last ws'" using ws by (cases ws') auto
  ultimately show ?case using step s' vs rs by auto
qed

subsection \<open>open\<close>

text \<open>
  C2. The claim asks that \<^verbatim>\<open>open\<close> with an empty target returns the first volume's root as
  \<^verbatim>\<open>cwd\<close> and the trees of all mounted volumes in \<^verbatim>\<open>files\<close>. The handler assigns
  \<^verbatim>\<open>response['files']\<close> in every round of its loop, so only the last volume's tree is
  left. With the volumes \<open>A\<close> (root \<open>/a\<close>, entries \<open>f\<close> and \<open>sub\<close>) and \<open>B\<close> (root \<open>/b\<close>, entry
  \<open>g\<close>), \<^verbatim>\<open>cwd\<close> is the root of \<open>A\<close> and \<^verbatim>\<open>files\<close> holds the entry of \<open>B\<close> alone.
\<close>

theorem open_empty_target_overwrites_files:
  "get_tree vol_a [] False False (world example_connector) =
     Inr [\<lparr>node_hash = ''A_f'', node_phash = Some ''A_'', node_meta = []\<rparr>,
          \<lparr>node_hash = ''A_sub'', node_phash = Some ''A_'', node_meta = []\<rparr>] \<and>
   get_tree vol_b [] False False (world example_connector) =
     Inr [\<lparr>node_hash = ''B_g'', node_phash = Some ''B_'', node_meta = []\<rparr>] \<and>
   fst (cmd_open example_env (example_connector\<lparr>data := [(''target'', PStr [])]\<rparr>)) = None \<and>
   response (snd (cmd_open example_env (example_connector\<lparr>data := [(''target'', PStr [])]\<rparr>))) =
     [(''cwd'', VNode \<lparr>node_hash = ''A_'', node_phash = None, node_meta = []\<rparr>),
      (''files'', VList [VNode \<lparr>node_hash = ''B_g'', node_phash = Some ''B_'', node_meta = []\<rparr>])]"
  by (simp add: cmd_open_def open_init_def example_simps)

subsection \<open>paste\<close>

text \<open>
  C4. When \<^verbatim>\<open>src\<close> and \<^verbatim>\<open>dst\<close> resolve to two different volumes, \<^verbatim>\<open>paste\<close> raises
  \<^verbatim>\<open>Moving between volumes is not supported.\<close> whatever \<^verbatim>\<open>cut\<close> is, and leaves the
  connector as it was: the storage is the same and no call of a mutation method has been
  recorded.
\<close>

theorem paste_cross_volume:
  assumes "lookup (data self) ''targets[]'' = Some targets"
    and "lookup (data self) ''src'' = Some (PStr src)"
    and "lookup (data self) ''dst'' = Some (PStr dst)"
    and "lookup (data self) ''cut'' = Some cut_param"
    and "get_volume self src = Inr source_volume"
    and "get_volume self dst = Inr dest_volume"
    and "source_volume \<noteq> dest_volume"
  shows "cmd_paste env self =
           (Some (Exception ''Moving between volumes is not supported.''), self) \<and>
         calls (snd (cmd_paste env self)) = calls self \<and>
         world (snd (cmd_paste env self)) = world self \<and>
         response (snd (cmd_paste env self)) = response self"
  using assms by (simp add: cmd_paste_def attempt_def getitem_Some hash_arg_def)

theorem paste_cross_volume_witness:
  "cmd_paste example_env
     (example_connector\<lparr>data := [(''targets[]'', PList [''A_f'']), (''src'', PStr ''A_''),
                                   (''dst'', PStr ''B_''), (''cut'', PStr ''1'')]\<rparr>) =
   (Some (Exception ''Moving between volumes is not supported.''),
    example_connector\<lparr>data := [(''targets[]'', PList [''A_f'']), (''src'', PStr ''A_''),
                                   (''dst'', PStr ''B_''), (''cut'', PStr ''1'')]\<rparr>)"
proof -
  let ?self = "example_connector\<lparr>data := [(''targets[]'', PList [''A_f'']),
                 (''src'', PStr ''A_''), (''dst'', PStr ''B_''), (''cut'', PStr ''1'')]\<rparr>"
  have "lookup (data ?self) ''targets[]'' = Some (PList [''A_f''])"
    and "lookup (data ?self) ''src'' = Some (PStr ''A_'')"
    and "lookup (data ?self) ''dst'' = Some (PStr ''B_'')"
    and "lookup (data ?self) ''cut'' = Some (PStr ''1'')"
    by (simp_all add: lookup_def)
  moreover have "get_volume ?self ''A_'' = Inr vol_a" and "get_volume ?self ''B_'' = Inr vol_b"
    by (simp_all add: get_volume_example)
  ultimately show ?thesis
    using vol_a_neq_b by (rule paste_cross_volume[THEN conjunct1])
qed

subsection \<open>rm\<close>

text \<open>
  C5. Let every target of \<^verbatim>\<open>targets[]\<close> resolve to a volume, \<open>vs ! i\<close> for the \<open>i\<close>-th, and
  let every removal succeed: \<^verbatim>\<open>remove\<close> of the \<open>i\<close>-th target on its volume, in the storage
  \<open>ws ! i\<close> left by the removals before it, returns \<open>rs ! i\<close> and leaves \<open>ws ! Suc i\<close>. Then
  \<^verbatim>\<open>rm\<close> returns normally; it has called \<^verbatim>\<open>remove\<close> once for every target, on the target's
  own volume and in the order of the input; \<^verbatim>\<open>response['removed']\<close> is \<open>rs\<close>, as long as
  the input and in its order.
\<close>

theorem remove_every_target:
  assumes "lookup (data self) ''targets[]'' = Some (PList ts)"
    and "length vs = length ts" "length rs = length ts" "length ws = Suc (length ts)"
    and "ws ! 0 = world self"
    and "\<forall>i<length ts. get_volume self (ts ! i) = Inr (vs ! i)"
    and "\<forall>i<length ts. remove (vs ! i) (ts ! i) (ws ! i) = (Inr (rs ! i), ws ! Suc i)"
  shows "\<exists>self'. cmd_remove env self = (None, self') \<and>
           lookup (response self') ''removed'' = Some (VList rs) \<and>
           calls self' = calls self @ map2 (\<lambda>v t. Remove (get_volume_id v) t) vs ts \<and>
           world self' = last ws"
proof -
  define self0 where "self0 = self\<lparr>response := setitem (response self) ''removed'' (VList [])\<rparr>"
  have vols: "volumes self0 = volumes self" by (simp add: self0_def)
  have "\<exists>self'. remove_targets ts self0 = (None, self') \<and>
           lookup (response self') ''removed'' = Some (VList ([] @ rs)) \<and>
           calls self' = calls self0 @ map2 (\<lambda>v t. Remove (get_volume_id v) t) vs ts \<and>
           world self' = last ws"
  proof (rule remove_targets_chain[OF assms(2-4)])
    show "ws ! 0 = world self0" using assms(5) by (simp add: self0_def)
    show "\<forall>i<length ts. get_volume self0 (ts ! i) = Inr (vs ! i)"
      using assms(6) by (simp add: get_volume_volumes[OF vols])
    show "\<forall>i<length ts. remove (vs ! i) (ts ! i) (ws ! i) = (Inr (rs ! i), ws ! Suc i)"
      by (rule assms(7))
    show "lookup (response self0) ''removed'' = Some (VList [])"
      by (simp add: self0_def lookup_setitem)
  qed
  moreover have "cmd_remove env self = remove_targets ts self0"
    using assms(1) by (simp add: cmd_remove_def attempt_def getitem_Some iter_def self0_def)
  moreover have "calls self0 = calls self" by (simp add: self0_def)
  ultimately show ?thesis by auto
qed

theorem remove_every_target_witness:
  "\<exists>self'.
     cmd_remove example_env
       (example_connector\<lparr>data := [(''targets[]'', PList [''A_f'', ''B_g''])]\<rparr>) = (None, self') \<and>
     lookup (response self') ''removed'' = Some (VList [VStr ''A_f'', VStr ''B_g'']) \<and>
     calls self' = [Remove ''A'' ''A_f'', Remove ''B'' ''B_g''] \<and>
     world self' = [''/a'', ''/a/sub'', ''/b'']"
proof -
  have "\<exists>self'.
     cmd_remove example_env
       (example_connector\<lparr>data := [(''targets[]'', PList [''A_f'', ''B_g''])]\<rparr>) = (None, self') \<and>
     lookup (response self') ''removed'' = Some (VList [VStr ''A_f'', VStr ''B_g'']) \<and>
     calls self' =
       calls (example_connector\<lparr>data := [(''targets[]'', PList [''A_f'', ''B_g''])]\<rparr>) @
       map2 (\<lambda>v t. Remove (get_volume_id v) t) [vol_a, vol_b] [''A_f'', ''B_g''] \<and>
     world self' =
       last [[''/a'', ''/a/f'', ''/a/sub'', ''/b'', ''/b/g''],
             [''/a'', ''/a/sub'', ''/b'', ''/b/g''],
             [''/a'', ''/a/sub'', ''/b'']]"
    by (rule remove_every_target)
       (simp_all add: All_less_Suc get_volume_example,
        simp_all add: example_simps)
  then show ?thesis
    by (simp add: example_simps)
qed

subsection \<open>archive\<close>

text \<open>
  C10. When the volume resolves the target of \<^verbatim>\<open>archive\<close> to \<^verbatim>\<open>None\<close> or to the empty
  string, the handler never returns normally and changes nothing. If the tree of the
  target is empty it raises on the unassigned \<^verbatim>\<open>added\<close>; if the tree has a first node
  whose path the volume resolves, it raises on the unassigned \<^verbatim>\<open>zipfile\<close>.
\<close>

theorem archive_unassigned_path:
  assumes "lookup (data self) ''target'' = Some (PStr h)"
    and "lookup (data self) ''targets[]'' = Some targets"
    and "lookup (data self) ''name'' = Some name"
    and "lookup (data self) ''type'' = Some type"
    and "get_volume self h = Inr source_volume"
    and "find_path source_volume (Some h) (world self) = Inr abs_path"
    and "abs_path = None \<or> abs_path = Some []"
  shows "(\<exists>e. cmd_archive env self = (Some e, self)) \<and>
         (get_tree source_volume h False False (world self) = Inr [] \<longrightarrow>
            cmd_archive env self = (Some (UnboundLocalError ''added''), self)) \<and>
         (\<forall>n ns p. get_tree source_volume h False False (world self) = Inr (n # ns) \<and>
            find_path source_volume (Some (node_hash n)) (world self) = Inr p \<longrightarrow>
            cmd_archive env self = (Some (UnboundLocalError ''zipfile''), self))"
proof -
  have eq: "cmd_archive env self = archive_unassigned source_volume h self"
    using assms by (auto simp: cmd_archive_def attempt_def getitem_Some hash_arg_def)
  have "\<exists>e. archive_unassigned source_volume h self = (Some e, self)"
    by (auto simp: archive_unassigned_def attempt_def split: sum.splits list.splits)
  then show ?thesis
    unfolding eq by (auto simp: archive_unassigned_def attempt_def)
qed

theorem archive_unassigned_path_witness:
  "cmd_archive example_env
     ((init [pathless_volume ''D'' ''/d''] [''/d'', ''/d/f''])
        \<lparr>data := [(''target'', PStr ''D_''), (''targets[]'', PList [''D_f'']),
                  (''name'', PStr ''b''), (''type'', PStr ''application/zip'')]\<rparr>) =
   (Some (UnboundLocalError ''zipfile''),
    (init [pathless_volume ''D'' ''/d''] [''/d'', ''/d/f''])
        \<lparr>data := [(''target'', PStr ''D_''), (''targets[]'', PList [''D_f'']),
                  (''name'', PStr ''b''), (''type'', PStr ''application/zip'')]\<rparr>)"
proof -
  let ?self = "(init [pathless_volume ''D'' ''/d''] [''/d'', ''/d/f''])
        \<lparr>data := [(''target'', PStr ''D_''), (''targets[]'', PList [''D_f'']),
                  (''name'', PStr ''b''), (''type'', PStr ''application/zip'')]\<rparr>"
  have 1: "lookup (data ?self) ''target'' = Some (PStr ''D_'')"
    and 2: "lookup (data ?self) ''targets[]'' = Some (PList [''D_f''])"
    and 3: "lookup (data ?self) ''name'' = Some (PStr ''b'')"
    and 4: "lookup (data ?self) ''type'' = Some (PStr ''application/zip'')"
    by (simp_all add: lookup_def)
  have 5: "get_volume ?self ''D_'' = Inr (pathless_volume ''D'' ''/d'')"
    by (simp add: get_volume_def init_def lookup_def pathless_volume_def flat_volume_def)
  have 6: "find_path (pathless_volume ''D'' ''/d'') (Some ''D_'') (world ?self) = Inr None"
    by (simp add: pathless_volume_def)
  have 7: "get_tree (pathless_volume ''D'' ''/d'') ''D_'' False False (world ?self) =
             Inr [\<lparr>node_hash = ''D_f'', node_phash = Some ''D_'', node_meta = []\<rparr>]"
    by (simp add: pathless_volume_def flat_volume_def init_def children_def entry_node_def)
  have 8: "find_path (pathless_volume ''D'' ''/d'') (Some ''D_f'') (world ?self) = Inr None"
    by (simp add: pathless_volume_def)
  from archive_unassigned_path[OF 1 2 3 4 5 6, of example_env] 7 8
  show ?thesis by simp
qed

lemma find_paths_Inr:
  "find_paths v w ts acc = Inr files \<Longrightarrow>
   \<exists>fs. files = acc @ fs \<and> length fs = length ts \<and>
        (\<forall>i<length ts. find_path v (Some (ts ! i)) w = Inr (fs ! i))"
proof (induction ts arbitrary: acc)
  case Nil
  then show ?case by simp
next
  case (Cons t ts)
  from Cons.prems obtain p where p: "find_path v (Some t) w = Inr p"
    and rest: "find_paths v w ts (acc @ [p]) = Inr files"
    by (auto split: sum.splits)
  from Cons.IH[OF rest] obtain fs where fs: "files = (acc @ [p]) @ fs" "length fs = length ts"
    "\<forall>i<length ts. find_path v (Some (ts ! i)) w = Inr (fs ! i)"
    by blast
  have "\<forall>i<length (t # ts). find_path v (Some ((t # ts) ! i)) w = Inr ((p # fs) ! i)"
    using p fs(3) by (auto simp: nth_Cons split: nat.splits)
  with fs(1,2) show ?case
    by (intro exI[of _ "p # fs"]) simp
qed

lemma added_nodes_Inr:
  "added_nodes v w path tree acc = Inr added \<Longrightarrow>
   added = acc @ filter (\<lambda>n. find_path v (Some (node_hash n)) w = Inr (Some path)) tree"
proof (induction tree arbitrary: acc)
  case Nil
  then show ?case by simp
next
  case (Cons n tree)
  from Cons.prems obtain p where p: "find_path v (Some (node_hash n)) w = Inr p"
    and rest: "added_nodes v w path tree (if p = Some path then acc @ [n] else acc) = Inr added"
    by (auto split: sum.splits)
  from Cons.IH[OF rest] p show ?case by auto
qed

lemma filter_unique_le:
  "distinct (map f xs) \<Longrightarrow> length (filter (\<lambda>x. f x = c) xs) \<le> 1"
proof (induction xs)
  case Nil
  then show ?case by simp
next
  case (Cons x xs)
  show ?case
  proof (cases "f x = c")
    case True
    with Cons.prems have "c \<notin> f ` set xs" by simp
    then have "\<forall>y\<in>set xs. f y \<noteq> c" by blast
    then have "filter (\<lambda>x. f x = c) xs = []" by (simp add: filter_empty_conv)
    with True show ?thesis by simp
  next
    case False
    with Cons show ?thesis by simp
  qed
qed

lemma filter_unique_eq:
  assumes "distinct (map f xs)" "\<exists>x\<in>set xs. f x = c"
  shows "length (filter (\<lambda>x. f x = c) xs) = 1"
proof -
  from assms(2) have "filter (\<lambda>x. f x = c) xs \<noteq> []"
    by (auto simp: filter_empty_conv)
  then have "1 \<le> length (filter (\<lambda>x. f x = c) xs)"
    by (cases "filter (\<lambda>x. f x = c) xs") auto
  with filter_unique_le[OF assms(1), of c] show ?thesis by simp
qed

lemma archive_unassigned_raises: "archive_unassigned v h s \<noteq> (None, s')"
  by (auto simp: archive_unassigned_def attempt_def split: sum.splits list.splits)

lemma archive_success:
  assumes ok: "cmd_archive env self = (None, self')"
    and d: "lookup (data self) ''target'' = Some (PStr h)"
      "lookup (data self) ''targets[]'' = Some (PList ts)"
      "lookup (data self) ''name'' = Some (PStr n)"
      "lookup (data self) ''type'' = Some (PStr ty)"
  shows "\<exists>vol p ext files tree added.
      get_volume self h = Inr vol \<and>
      find_path vol (Some h) (world self) = Inr (Some p) \<and> p \<noteq> [] \<and>
      lookup type_map ty = Some ext \<and>
      find_paths vol (world self) ts [] = Inr files \<and>
      create_archive env (path_join p (n @ ''.'' @ ext)) files (world self) =
        (Inr (), world self') \<and>
      calls self' = calls self @ [CreateArchive (path_join p (n @ ''.'' @ ext)) files] \<and>
      get_tree vol h False False (world self') = Inr tree \<and>
      added_nodes vol (world self') (path_join p (n @ ''.'' @ ext)) tree [] = Inr added \<and>
      response self' = update (response self) [(''added'', nodes added)]"
proof -
  have g: "getitem (data self) ''target'' = Inr (PStr h)"
    "getitem (data self) ''targets[]'' = Inr (PList ts)"
    "getitem (data self) ''name'' = Inr (PStr n)"
    "getitem (data self) ''type'' = Inr (PStr ty)"
    using d by (simp_all add: getitem_def)
  from ok obtain vol where vol: "get_volume self h = Inr vol"
    by (cases "get_volume self h") (auto simp: cmd_archive_def g attempt_def hash_arg_def)
  from ok vol obtain ap where ap: "find_path vol (Some h) (world self) = Inr ap"
    by (cases "find_path vol (Some h) (world self)")
       (auto simp: cmd_archive_def g attempt_def hash_arg_def)
  have "\<not> (ap = None \<or> ap = Some [])"
  proof
    assume "ap = None \<or> ap = Some []"
    with ok vol ap have "archive_unassigned vol h self = (None, self')"
      by (auto simp: cmd_archive_def g attempt_def hash_arg_def)
    then show False by (simp add: archive_unassigned_raises)
  qed
  then obtain p where p: "ap = Some p" "p \<noteq> []"
    by (cases ap) auto
  have body: "cmd_archive env self =
      attempt (type_ext (PStr ty)) self (\<lambda>ext.
        let zipfile = path_join p (format_param (PStr n) @ ''.'' @ ext) in
        attempt (find_paths vol (world self) (iter (PList ts)) []) self (\<lambda>files.
          case create_archive env zipfile files (world self) of
            (r, w) \<Rightarrow>
              let self1 = mutated self w (CreateArchive zipfile files) in
              attempt r self1 (\<lambda>u.
              attempt (get_tree vol h False False w) self1 (\<lambda>tree.
              attempt (added_nodes vol w zipfile tree []) self1 (\<lambda>added.
                (None, self1\<lparr>response :=
                   update (response self1) [(''added'', nodes added)]\<rparr>))))))"
    using vol ap p by (simp add: cmd_archive_def g attempt_def hash_arg_def)
  show ?thesis
    using ok vol ap p unfolding body
    by (auto simp: attempt_def Let_def format_param_def iter_def mutated_def type_ext_def
          getitem_def split: sum.splits prod.splits option.splits)
qed

lemma archive_example:
  "fst (cmd_archive example_env (archive_request ''b'')) = None"
  "world (snd (cmd_archive example_env (archive_request ''b''))) =
     [''/a'', ''/a/f'', ''/a/sub'', ''/b'', ''/b/g'', ''/a/b.zip'']"
  "calls (snd (cmd_archive example_env (archive_request ''b''))) =
     [CreateArchive ''/a/b.zip'' [Some ''/a/f'']]"
  by (simp_all add: cmd_archive_def archive_request_def type_ext_def type_map_def example_simps)

text \<open>
  C6 (as amended). Let \<^verbatim>\<open>archive\<close> return normally, with the parameters \<^verbatim>\<open>name\<close> and
  \<^verbatim>\<open>type\<close>. Then the type is in the MIME-type map, with extension \<open>ext\<close>; the target
  resolves to a non-empty path \<open>p\<close>; the archive utility has been called once, to create
  the file \<^verbatim>\<open>os.path.join(p, name.ext)\<close> from the resolved paths of the listed targets, in
  their order; and \<^verbatim>\<open>added\<close> is exactly the list of those nodes of the target's tree,
  read again after the creation, whose resolved path is the path of the archive. When
  the paths of the nodes of that tree are distinct, \<^verbatim>\<open>added\<close> has at most one node, and
  exactly one when the tree has a node at the path of the archive.
\<close>

theorem archive_added:
  assumes "cmd_archive env self = (None, self')"
    and "lookup (data self) ''target'' = Some (PStr h)"
    and "lookup (data self) ''targets[]'' = Some (PList ts)"
    and "lookup (data self) ''name'' = Some (PStr n)"
    and "lookup (data self) ''type'' = Some (PStr ty)"
  shows "\<exists>vol p ext zipfile files tree added.
      get_volume self h = Inr vol \<and>
      find_path vol (Some h) (world self) = Inr (Some p) \<and> p \<noteq> [] \<and>
      lookup type_map ty = Some ext \<and>
      zipfile = path_join p (n @ ''.'' @ ext) \<and>
      length files = length ts \<and>
      (\<forall>i<length ts. find_path vol (Some (ts ! i)) (world self) = Inr (files ! i)) \<and>
      create_archive env zipfile files (world self) = (Inr (), world self') \<and>
      calls self' = calls self @ [CreateArchive zipfile files] \<and>
      get_tree vol h False False (world self') = Inr tree \<and>
      added = filter (\<lambda>nd. find_path vol (Some (node_hash nd)) (world self') =
                            Inr (Some zipfile)) tree \<and>
      lookup (response self') ''added'' = Some (nodes added) \<and>
      (distinct (map (\<lambda>nd. find_path vol (Some (node_hash nd)) (world self')) tree) \<longrightarrow>
         length added \<le> 1 \<and>
         ((\<exists>nd\<in>set tree. find_path vol (Some (node_hash nd)) (world self') =
                             Inr (Some zipfile)) \<longrightarrow> length added = 1))"
proof -
  from archive_success[OF assms] obtain vol p ext files tree added where
    a: "get_volume self h = Inr vol"
       "find_path vol (Some h) (world self) = Inr (Some p)" "p \<noteq> []"
       "lookup type_map ty = Some ext"
       "find_paths vol (world self) ts [] = Inr files"
       "create_archive env (path_join p (n @ ''.'' @ ext)) files (world self) =
          (Inr (), world self')"
       "calls self' = calls self @ [CreateArchive (path_join p (n @ ''.'' @ ext)) files]"
       "get_tree vol h False False (world self') = Inr tree"
       "added_nodes vol (world self') (path_join p (n @ ''.'' @ ext)) tree [] = Inr added"
       "response self' = update (response self) [(''added'', nodes added)]"
    by blast
  let ?zip = "path_join p (n @ ''.'' @ ext)"
  let ?f = "\<lambda>nd. find_path vol (Some (node_hash nd)) (world self')"
  from find_paths_Inr[OF a(5)] have files: "length files = length ts"
    "\<forall>i<length ts. find_path vol (Some (ts ! i)) (world self) = Inr (files ! i)"
    by auto
  from added_nodes_Inr[OF a(9)] have added: "added = filter (\<lambda>nd. ?f nd = Inr (Some ?zip)) tree"
    by simp
  have resp: "lookup (response self') ''added'' = Some (nodes added)"
    by (simp add: a(10) update_def lookup_setitem)
  have le: "length added \<le> 1" if "distinct (map ?f tree)"
    unfolding added using that by (rule filter_unique_le)
  have eq: "length added = 1"
    if "distinct (map ?f tree)" "\<exists>nd\<in>set tree. ?f nd = Inr (Some ?zip)"
    unfolding added using that by (rule filter_unique_eq)
  show ?thesis
    using a(1-4,6-8) files added resp le eq by blast
qed

theorem archive_added_witness:
  "\<exists>added.
     lookup (response (snd (cmd_archive example_env (archive_request ''b'')))) ''added'' =
       Some (nodes added) \<and>
     length added = 1 \<and>
     calls (snd (cmd_archive example_env (archive_request ''b''))) =
       [CreateArchive ''/a/b.zip'' [Some ''/a/f'']]"
proof -
  let ?self = "archive_request ''b''"
  let ?self' = "snd (cmd_archive example_env ?self)"
  have ok: "cmd_archive example_env ?self = (None, ?self')"
    using archive_example(1) by (simp add: prod_eq_iff)
  have w: "world ?self = [''/a'', ''/a/f'', ''/a/sub'', ''/b'', ''/b/g'']"
    by (simp add: archive_request_def example_simps)
  have d: "lookup (data ?self) ''target'' = Some (PStr ''A_'')"
    "lookup (data ?self) ''targets[]'' = Some (PList [''A_f''])"
    "lookup (data ?self) ''name'' = Some (PStr ''b'')"
    "lookup (data ?self) ''type'' = Some (PStr ''application/zip'')"
    by (simp_all add: archive_request_def lookup_def)
  from archive_added[OF ok d] obtain vol p ext zipfile files tree added where
    a: "get_volume ?self ''A_'' = Inr vol"
      "find_path vol (Some ''A_'') (world ?self) = Inr (Some p)"
      "lookup type_map ''application/zip'' = Some ext"
      "zipfile = path_join p (''b'' @ ''.'' @ ext)"
      "get_tree vol ''A_'' False False (world ?self') = Inr tree"
      "lookup (response ?self') ''added'' = Some (nodes added)"
      "distinct (map (\<lambda>nd. find_path vol (Some (node_hash nd)) (world ?self')) tree) \<longrightarrow>
         length added \<le> 1 \<and>
         ((\<exists>nd\<in>set tree. find_path vol (Some (node_hash nd)) (world ?self') =
                             Inr (Some zipfile)) \<longrightarrow> length added = 1)"
    by blast
  have vol: "vol = vol_a"
    using a(1) by (simp add: archive_request_def get_volume_example)
  have p: "p = ''/a''"
    using a(2) unfolding vol w by (simp add: example_simps)
  have ext: "ext = ''zip''"
    using a(3) by (simp add: type_map_def lookup_def)
  have zip: "zipfile = ''/a/b.zip''"
    unfolding a(4) p ext by (simp add: path_join_def)
  have tree: "tree = [\<lparr>node_hash = ''A_f'', node_phash = Some ''A_'', node_meta = []\<rparr>,
                      \<lparr>node_hash = ''A_sub'', node_phash = Some ''A_'', node_meta = []\<rparr>,
                      \<lparr>node_hash = ''A_b.zip'', node_phash = Some ''A_'', node_meta = []\<rparr>]"
    using a(5) unfolding vol archive_example(2) by (simp add: example_simps)
  have "length added = 1"
    using a(7) unfolding vol archive_example(2) zip tree by (simp add: example_simps)
  with a(6) archive_example(3) show ?thesis by blast
qed

text \<open>
  The claim as written fails where it says exactly one node: with the name \<open>sub/b\<close> the
  archive is created at \<open>/a/sub/b.zip\<close>, the tree of the target lists \<open>/a/f\<close> and \<open>/a/sub\<close>,
  two distinct paths, and \<^verbatim>\<open>added\<close> is empty.
\<close>

theorem archive_added_counterexample:
  "fst (cmd_archive example_env (archive_request ''sub/b'')) = None \<and>
   calls (snd (cmd_archive example_env (archive_request ''sub/b''))) =
     [CreateArchive ''/a/sub/b.zip'' [Some ''/a/f'']] \<and>
   world (snd (cmd_archive example_env (archive_request ''sub/b''))) =
     [''/a'', ''/a/f'', ''/a/sub'', ''/b'', ''/b/g'', ''/a/sub/b.zip''] \<and>
   get_tree vol_a ''A_'' False False [''/a'', ''/a/f'', ''/a/sub'', ''/b'', ''/b/g'', ''/a/sub/b.zip''] =
     Inr [\<lparr>node_hash = ''A_f'', node_phash = Some ''A_'', node_meta = []\<rparr>,
          \<lparr>node_hash = ''A_sub'', node_phash = Some ''A_'', node_meta = []\<rparr>] \<and>
   find_path vol_a (Some ''A_f'') [''/a'', ''/a/f'', ''/a/sub'', ''/b'', ''/b/g'', ''/a/sub/b.zip''] =
     Inr (Some ''/a/f'') \<and>
   find_path vol_a (Some ''A_sub'') [''/a'', ''/a/f'', ''/a/sub'', ''/b'', ''/b/g'', ''/a/sub/b.zip''] =
     Inr (Some ''/a/sub'') \<and>
   lookup (response (snd (cmd_archive example_env (archive_request ''sub/b'')))) ''added'' =
     Some (nodes [])"
  by (simp add: cmd_archive_def archive_request_def type_ext_def type_map_def example_simps)

subsection \<open>extract\<close>

lemma hd_split: "hd (split sep s) = takeWhile (\<lambda>c. c \<noteq> sep) s"
proof (induction s)
  case Nil
  then show ?case by simp
next
  case (Cons c cs)
  obtain p ps where sp: "split sep cs = p # ps"
    using split_not_Nil[of sep cs] by (cases "split sep cs") auto
  with Cons show ?case by simp
qed

lemma split_many:
  "sep \<in> set cs \<Longrightarrow> \<exists>p q ps. split sep cs = p # q # ps"
proof -
  assume "sep \<in> set cs"
  then have "filter (\<lambda>c. c = sep) cs \<noteq> []" by (auto simp: filter_empty_conv)
  then have "2 \<le> length (split sep cs)"
    by (cases "filter (\<lambda>c. c = sep) cs") (auto simp: length_split)
  then show ?thesis
    by (cases "split sep cs"; cases "tl (split sep cs)") auto
qed

lemma last_split: "last (split sep s) = rev (takeWhile (\<lambda>c. c \<noteq> sep) (rev s))"
proof (induction s)
  case Nil
  then show ?case by simp
next
  case (Cons c cs)
  show ?case
  proof (cases "sep \<in> set cs")
    case True
    then obtain p q ps where sp: "split sep cs = p # q # ps"
      using split_many by blast
    have l: "last (split sep (c # cs)) = last (split sep cs)"
      using sp by simp
    have "takeWhile (\<lambda>c. c \<noteq> sep) (rev cs @ [c]) = takeWhile (\<lambda>c. c \<noteq> sep) (rev cs)"
      using True by (auto simp: takeWhile_append)
    with l Cons.IH show ?thesis by simp
  next
    case False
    then have sp: "split sep cs = [cs]" by (simp add: split_one)
    have "takeWhile (\<lambda>c. c \<noteq> sep) (rev cs @ [c]) =
            rev cs @ takeWhile (\<lambda>c. c \<noteq> sep) [c]"
      using False by (intro takeWhile_append2) auto
    with sp show ?thesis by simp
  qed
qed

lemma archive_name_of_stem:
  "archive_name_of path =
     takeWhile (\<lambda>c. c \<noteq> CHR ''.'') (rev (takeWhile (\<lambda>c. c \<noteq> CHR ''/'') (rev path)))"
  by (simp add: archive_name_of_def hd_split last_split)

lemma stem_one_dot:
  assumes "CHR ''.'' \<notin> set a" "CHR ''.'' \<notin> set b" "a \<noteq> []" "b \<noteq> []"
  shows "filename_stem (a @ CHR ''.'' # b) = a"
    and "takeWhile (\<lambda>c. c \<noteq> CHR ''.'') (a @ CHR ''.'' # b) = a"
proof -
  have "takeWhile (\<lambda>c. c \<noteq> CHR ''.'') (rev b @ CHR ''.'' # rev a) = rev b"
    using assms(2) by (simp add: takeWhile_append)
  then have suf: "rev (takeWhile (\<lambda>c. c \<noteq> CHR ''.'') (rev (a @ CHR ''.'' # b))) = b"
    by simp
  show "filename_stem (a @ CHR ''.'' # b) = a"
    unfolding filename_stem_def suf Let_def using assms(3,4) by (cases a) auto
  show "takeWhile (\<lambda>c. c \<noteq> CHR ''.'') (a @ CHR ''.'' # b) = a"
    using assms(1) by (simp add: takeWhile_append)
qed

lemma added_nodes_iff:
  "added_nodes v w path tree acc = Inr added \<longleftrightarrow>
     (\<forall>nd\<in>set tree. \<exists>q. find_path v (Some (node_hash nd)) w = Inr q) \<and>
     added = acc @ filter (\<lambda>nd. find_path v (Some (node_hash nd)) w = Inr (Some path)) tree"
proof (induction tree arbitrary: acc)
  case Nil
  then show ?case by auto
next
  case (Cons n tree)
  show ?case
  proof (cases "find_path v (Some (node_hash n)) w")
    case (Inl e)
    then show ?thesis by auto
  next
    case (Inr q)
    then show ?thesis using Cons.IH by auto
  qed
qed

lemma extract_iff:
  assumes d: "lookup (data self) ''target'' = Some (PStr h)"
  shows "cmd_extract env self = (None, self') \<longleftrightarrow>
    (\<exists>vol archive_file path ph parent pvol made w1 w2 tree added.
      get_volume self h = Inr vol \<and>
      get_info vol h (world self) = Inr archive_file \<and>
      find_path vol (Some h) (world self) = Inr (Some path) \<and>
      node_phash archive_file = Some ph \<and>
      find_path vol (Some ph) (world self) = Inr (Some parent) \<and>
      get_volume self ph = Inr pvol \<and>
      mkdir pvol (PStr (archive_name_of path)) ph (world self) = (Inr made, w1) \<and>
      extract_archive env path (path_join parent (archive_name_of path)) w1 = (Inr (), w2) \<and>
      get_tree vol ph False False w2 = Inr tree \<and>
      added_nodes vol w2 (path_join parent (archive_name_of path)) tree [] = Inr added \<and>
      self' = self\<lparr>world := w2,
                    calls := calls self @
                      [Mkdir (get_volume_id pvol) (PStr (archive_name_of path)) ph,
                       ExtractArchive path (path_join parent (archive_name_of path))],
                    response := setitem (response self) ''added'' (nodes added)\<rparr>)"
  by (auto simp: cmd_extract_def getitem_Some[OF d] attempt_def Let_def hash_arg_def mutated_def
        update_def split: sum.splits prod.splits option.splits)

text \<open>
  C7 (as amended). \<^verbatim>\<open>extract\<close> returns normally exactly when every step succeeds: the
  target resolves to a volume, a node info with a parent and a path; the parent resolves
  to a path and a volume; \<^verbatim>\<open>mkdir\<close> on the parent's volume, the archive utility, the
  scan of the parent's tree and the resolution of the path of each of its nodes succeed.
  The handler has then called \<^verbatim>\<open>mkdir\<close> once, under the parent, with the part of the
  archive's file name before its first dot, and the archive utility once, to extract the
  archive into the folder of that name under the parent's path; \<^verbatim>\<open>added\<close> is exactly the
  list of those nodes of the parent's tree, read again after the extraction, whose
  resolved path is the path of that folder. The name is the filename stem when the file
  name has one dot, neither at its start nor at its end.
\<close>

theorem extract_added:
  assumes "lookup (data self) ''target'' = Some (PStr h)"
  shows "(cmd_extract env self = (None, self') \<longleftrightarrow>
    (\<exists>vol archive_file path ph parent pvol name folder made w1 w2 tree.
      get_volume self h = Inr vol \<and>
      get_info vol h (world self) = Inr archive_file \<and>
      find_path vol (Some h) (world self) = Inr (Some path) \<and>
      node_phash archive_file = Some ph \<and>
      find_path vol (Some ph) (world self) = Inr (Some parent) \<and>
      get_volume self ph = Inr pvol \<and>
      name = takeWhile (\<lambda>c. c \<noteq> CHR ''.'')
               (rev (takeWhile (\<lambda>c. c \<noteq> CHR ''/'') (rev path))) \<and>
      folder = path_join parent name \<and>
      mkdir pvol (PStr name) ph (world self) = (Inr made, w1) \<and>
      extract_archive env path folder w1 = (Inr (), w2) \<and>
      get_tree vol ph False False w2 = Inr tree \<and>
      (\<forall>nd\<in>set tree. \<exists>q. find_path vol (Some (node_hash nd)) w2 = Inr q) \<and>
      self' = self\<lparr>world := w2,
                    calls := calls self @
                      [Mkdir (get_volume_id pvol) (PStr name) ph, ExtractArchive path folder],
                    response := setitem (response self) ''added''
                      (nodes (filter (\<lambda>nd. find_path vol (Some (node_hash nd)) w2 =
                                            Inr (Some folder)) tree))\<rparr>)) \<and>
    (\<forall>a b. CHR ''.'' \<notin> set a \<and> CHR ''.'' \<notin> set b \<and> a \<noteq> [] \<and> b \<noteq> [] \<longrightarrow>
       takeWhile (\<lambda>c. c \<noteq> CHR ''.'') (a @ CHR ''.'' # b) = filename_stem (a @ CHR ''.'' # b))"
proof (intro conjI allI impI)
  show "takeWhile (\<lambda>c. c \<noteq> CHR ''.'') (a @ CHR ''.'' # b) = filename_stem (a @ CHR ''.'' # b)"
    if "CHR ''.'' \<notin> set a \<and> CHR ''.'' \<notin> set b \<and> a \<noteq> [] \<and> b \<noteq> []" for a b
    using that stem_one_dot[of a b] by simp
  show "cmd_extract env self = (None, self') \<longleftrightarrow>
    (\<exists>vol archive_file path ph parent pvol name folder made w1 w2 tree.
      get_volume self h = Inr vol \<and>
      get_info vol h (world self) = Inr archive_file \<and>
      find_path vol (Some h) (world self) = Inr (Some path) \<and>
      node_phash archive_file = Some ph \<and>
      find_path vol (Some ph) (world self) = Inr (Some parent) \<and>
      get_volume self ph = Inr pvol \<and>
      name = takeWhile (\<lambda>c. c \<noteq> CHR ''.'')
               (rev (takeWhile (\<lambda>c. c \<noteq> CHR ''/'') (rev path))) \<and>
      folder = path_join parent name \<and>
      mkdir pvol (PStr name) ph (world self) = (Inr made, w1) \<and>
      extract_archive env path folder w1 = (Inr (), w2) \<and>
      get_tree vol ph False False w2 = Inr tree \<and>
      (\<forall>nd\<in>set tree. \<exists>q. find_path vol (Some (node_hash nd)) w2 = Inr q) \<and>
      self' = self\<lparr>world := w2,
                    calls := calls self @
                      [Mkdir (get_volume_id pvol) (PStr name) ph, ExtractArchive path folder],
                    response := setitem (response self) ''added''
                      (nodes (filter (\<lambda>nd. find_path vol (Some (node_hash nd)) w2 =
                                            Inr (Some folder)) tree))\<rparr>)"
    unfolding extract_iff[OF assms] added_nodes_iff archive_name_of_stem
    by (simp only: append_Nil ex_simps simp_thms) blast
qed

theorem extract_added_witness:
  "cmd_extract example_env extract_request =
     (None, extract_request
        \<lparr>world := [''/a'', ''/a/b.zip'', ''/a/b''],
         calls := [Mkdir ''A'' (PStr ''b'') ''A_'', ExtractArchive ''/a/b.zip'' ''/a/b''],
         response := [(''added'', nodes [\<lparr>node_hash = ''A_b'', node_phash = Some ''A_'',
                                            node_meta = []\<rparr>])]\<rparr>)"
proof -
  have d: "lookup (data extract_request) ''target'' = Some (PStr ''A_b.zip'')"
    by (simp add: extract_request_def lookup_def)
  show ?thesis
    apply (rule extract_added[OF d, THEN conjunct1, THEN iffD2])
    apply (rule exI[of _ vol_a])
    apply (rule exI[of _ "\<lparr>node_hash = ''A_b.zip'', node_phash = Some ''A_'', node_meta = []\<rparr>"])
    apply (rule exI[of _ "''/a/b.zip''"], rule exI[of _ "''A_''"], rule exI[of _ "''/a''"])
    apply (rule exI[of _ vol_a], rule exI[of _ "''b''"], rule exI[of _ "''/a/b''"])
    apply (rule exI[of _ "\<lparr>node_hash = ''A_b'', node_phash = Some ''A_'', node_meta = []\<rparr>"])
    apply (rule exI[of _ "[''/a'', ''/a/b.zip'', ''/a/b'']"])
    apply (rule exI[of _ "[''/a'', ''/a/b.zip'', ''/a/b'']"])
    apply (rule exI[of _ "[\<lparr>node_hash = ''A_b.zip'', node_phash = Some ''A_'', node_meta = []\<rparr>,
                           \<lparr>node_hash = ''A_b'', node_phash = Some ''A_'', node_meta = []\<rparr>]"])
    apply (simp add: extract_request_def example_simps)
    done
qed

text \<open>
  The claim as written fails where it says the filename stem: the archive \<open>r.v1.zip\<close> is
  extracted into the folder \<open>r\<close>, and its stem is \<open>r.v1\<close>.
\<close>

theorem extract_stem_counterexample:
  "fst (cmd_extract example_env extract_dotted_request) = None \<and>
   calls (snd (cmd_extract example_env extract_dotted_request)) =
     [Mkdir ''A'' (PStr ''r'') ''A_'', ExtractArchive ''/a/r.v1.zip'' ''/a/r''] \<and>
   world (snd (cmd_extract example_env extract_dotted_request)) =
     [''/a'', ''/a/r.v1.zip'', ''/a/r''] \<and>
   filename_stem ''r.v1.zip'' = ''r.v1''"
  by (simp add: cmd_extract_def extract_dotted_request_def archive_name_of_def none_split_def
        filename_stem_def example_simps)

subsection \<open>The dispatcher\<close>




















end
